theory Spec2Isabelle
  imports Main "HOL-Library.Char_ord" "HOL-Library.List_Lexorder" "HOL-Library.Product_Lexorder"
begin

section \<open>Strings as the scripts use them\<close>

text \<open>
  Python strings are modelled as \<open>string\<close>, one \<open>char\<close> per code point, for code
  points below 256. The helpers below are the string methods the two release scripts
  call: \<open>str.strip\<close>, \<open>str.lstrip(chars)\<close>, \<open>str.split(sep)\<close>, \<open>sep.join\<close>, the
  substring test \<open>x in s\<close>, \<open>int(digits)\<close> and \<open>str(n)\<close>.
\<close>

definition is_space :: "char \<Rightarrow> bool" where
  \<comment> \<open>\<open>str.isspace\<close> and the regular expression class \<open>\s\<close> on code points below 256:
      tab, line feed, vertical tab, form feed, carriage return, the separators
      0x1C to 0x1F, space, 0x85 and 0xA0\<close>
  "is_space c = (c \<in> set [CHR 0x09, CHR 0x0A, CHR 0x0B, CHR 0x0C, CHR 0x0D, CHR 0x1C, CHR 0x1D,
                           CHR 0x1E, CHR 0x1F, CHR 0x20, CHR 0x85, CHR 0xA0])"

definition is_digit :: "char \<Rightarrow> bool" where
  "is_digit c = (c \<in> set ''0123456789'')"

definition is_lower_az :: "char \<Rightarrow> bool" where
  "is_lower_az c = (c \<in> set ''abcdefghijklmnopqrstuvwxyz'')"

definition lower_char :: "char \<Rightarrow> char" where
  \<comment> \<open>lower-casing of the ASCII letters, the only letters the version grammar admits\<close>
  "lower_char c =
     (case map_of (zip ''ABCDEFGHIJKLMNOPQRSTUVWXYZ'' ''abcdefghijklmnopqrstuvwxyz'') c of
        Some l \<Rightarrow> l
      | None \<Rightarrow> c)"

definition lower :: "string \<Rightarrow> string" where
  "lower s = map lower_char s"

definition strip :: "string \<Rightarrow> string" where
  "strip s = rev (dropWhile is_space (rev (dropWhile is_space s)))"

definition lstrip_chars :: "string \<Rightarrow> string \<Rightarrow> string" where
  \<comment> \<open>\<open>s.lstrip(chars)\<close>: drops every leading character that occurs in \<open>chars\<close>\<close>
  "lstrip_chars chars s = dropWhile (\<lambda>c. c \<in> set chars) s"

fun is_prefix :: "string \<Rightarrow> string \<Rightarrow> bool" where
  "is_prefix [] s = True"
| "is_prefix (p # ps) [] = False"
| "is_prefix (p # ps) (c # cs) = (p = c \<and> is_prefix ps cs)"

fun contains :: "string \<Rightarrow> string \<Rightarrow> bool" where
  \<comment> \<open>\<open>contains s x\<close> is Python's \<open>x in s\<close>\<close>
  "contains [] x = (x = [])"
| "contains (c # cs) x = (is_prefix x (c # cs) \<or> contains cs x)"

fun split_acc :: "string \<Rightarrow> string \<Rightarrow> string \<Rightarrow> string list" where
  \<comment> \<open>scans left to right; \<open>acc\<close> holds the current field reversed\<close>
  "split_acc sep acc [] = [rev acc]"
| "split_acc sep acc (c # cs) =
     (if sep \<noteq> [] \<and> is_prefix sep (c # cs)
      then rev acc # split_acc sep [] (drop (length sep) (c # cs))
      else split_acc sep (c # acc) cs)"

definition split :: "string \<Rightarrow> string \<Rightarrow> string list" where
  \<comment> \<open>\<open>s.split(sep)\<close> for a non-empty separator\<close>
  "split s sep = split_acc sep [] s"

fun join :: "string \<Rightarrow> string list \<Rightarrow> string" where
  \<comment> \<open>\<open>sep.join(xs)\<close>\<close>
  "join sep [] = []"
| "join sep [x] = x"
| "join sep (x # y # ys) = x @ sep @ join sep (y # ys)"

definition digit_val :: "char \<Rightarrow> nat" where
  "digit_val c = (case map_of (zip ''0123456789'' [0, 1, 2, 3, 4, 5, 6, 7, 8, 9]) c of
                    Some d \<Rightarrow> d
                  | None \<Rightarrow> 0)"

definition int_of_digits :: "string \<Rightarrow> nat" where
  \<comment> \<open>\<open>int(s)\<close> on a string of decimal digits\<close>
  "int_of_digits s = fold (\<lambda>c n. 10 * n + digit_val c) s 0"

function str_nat :: "nat \<Rightarrow> string" where
  \<comment> \<open>\<open>str(n)\<close> for a non-negative integer\<close>
  "str_nat n = (if n < 10 then [''0123456789'' ! n]
                else str_nat (n div 10) @ [''0123456789'' ! (n mod 10)])"
  by pat_completeness auto
termination
  by (relation "measure id") auto

declare str_nat.simps [simp del]

section \<open>Regular expressions with backtracking\<close>

text \<open>
  Both scripts decide by regular expressions: \<open>packaging.version.Version\<close> matches a tag
  against its \<open>VERSION_PATTERN\<close>, and \<open>generate_changelog\<close> matches a commit subject
  against \<open>_CONVENTIONAL_RE\<close>. The matcher below follows the backtracking search of
  Python's \<open>re\<close>: it returns every way the expression can match a prefix of the input, in
  the order the search tries them (greedy repetition first, the left alternative first),
  each with the named groups captured on the way and the input that is left. The match
  Python reports is the first one.
\<close>

datatype rx =
    Eps
  | Cls "char \<Rightarrow> bool"
  | Seq rx rx
  | Alt rx rx
  | Opt rx
  | Star rx
  | Grp string rx
  | Eos

type_synonym captures = "(string \<times> string) list"
type_synonym mstate = "captures \<times> string \<times> string"

text \<open>
  A match state is the captured groups (latest first), the input consumed so far
  (reversed) and the input left. \<open>Eos\<close> is Python's \<open>$\<close> without the multi-line flag: the
  end of the input, or just before a newline that ends the input.
\<close>

function rmatch :: "rx \<Rightarrow> mstate \<Rightarrow> mstate list" where
  "rmatch Eps st = [st]"
| "rmatch (Cls p) (caps, seen, s) =
     (case s of [] \<Rightarrow> [] | c # cs \<Rightarrow> if p c then [(caps, c # seen, cs)] else [])"
| "rmatch (Seq r1 r2) st = concat (map (rmatch r2) (rmatch r1 st))"
| "rmatch (Alt r1 r2) st = rmatch r1 st @ rmatch r2 st"
| "rmatch (Opt r) st = rmatch r st @ [st]"
| "rmatch (Star r) (caps, seen, s) =
     concat (map (\<lambda>st'. if length (snd (snd st')) < length s then rmatch (Star r) st' else [])
                 (rmatch r (caps, seen, s)))
     @ [(caps, seen, s)]"
| "rmatch (Grp name r) (caps, seen, s) =
     map (\<lambda>(caps', seen', s'). ((name, rev (take (length seen' - length seen) seen')) # caps', seen', s'))
         (rmatch r (caps, seen, s))"
| "rmatch Eos (caps, seen, s) = (if s = [] \<or> s = [CHR 0x0A] then [(caps, seen, s)] else [])"
  by pat_completeness auto
termination
  by (relation "inv_image (less_than <*lex*> less_than) (\<lambda>(r, caps, seen, s). (size r, length s))") auto

definition Plus :: "rx \<Rightarrow> rx" where
  "Plus r = Seq r (Star r)"

definition chr :: "char \<Rightarrow> rx" where
  "chr c = Cls (\<lambda>x. x = c)"

definition chr_i :: "char \<Rightarrow> rx" where
  \<comment> \<open>a pattern letter under \<open>re.IGNORECASE\<close>\<close>
  "chr_i c = Cls (\<lambda>x. lower_char x = c)"

definition lit_i :: "string \<Rightarrow> rx" where
  "lit_i s = foldr (\<lambda>c r. Seq (chr_i c) r) s Eps"

definition one_of :: "string \<Rightarrow> rx" where
  "one_of cs = Cls (\<lambda>x. x \<in> set cs)"

fun alts :: "rx list \<Rightarrow> rx" where
  "alts [] = Eps"
| "alts [r] = r"
| "alts (r # rs) = Alt r (alts rs)"

fun seqs :: "rx list \<Rightarrow> rx" where
  "seqs [] = Eps"
| "seqs [r] = r"
| "seqs (r # rs) = Seq r (seqs rs)"

definition re_match :: "rx \<Rightarrow> string \<Rightarrow> captures option" where
  \<comment> \<open>\<open>pattern.match(s)\<close>: the groups of the first match at the start of \<open>s\<close>, or None\<close>
  "re_match r s = (case rmatch r ([], [], s) of [] \<Rightarrow> None | (caps, seen, rest) # _ \<Rightarrow> Some caps)"

definition group :: "captures \<Rightarrow> string \<Rightarrow> string option" where
  \<comment> \<open>\<open>m.group(name)\<close>: None when the group took no part in the match\<close>
  "group caps name = map_of caps name"

section \<open>The version type of the \<open>packaging\<close> library\<close>

text \<open>
  \<open>discover_tag.py\<close> parses and orders tags with \<open>packaging.version.Version\<close>. The
  library is not part of the repository; it is modelled here from its published
  source (release 24.1): the pattern \<open>VERSION_PATTERN\<close>, compiled with
  \<open>re.IGNORECASE\<close> between \<open>^\s*\<close> and \<open>\s*$\<close>, the normalisation of the matched groups,
  the comparison key \<open>_cmpkey\<close> and \<open>__str__\<close>. Python's integers are unbounded, and
  so are the natural numbers used for them here.
\<close>

datatype local_seg = LInt nat | LStr string

record version =
  epoch :: nat
  release :: "nat list"
  pre :: "(string \<times> nat) option"
  post :: "(string \<times> nat) option"
  dev :: "(string \<times> nat) option"
  local :: "local_seg list option"

definition sep_opt :: rx where
  \<comment> \<open>\<open>[-_\.]?\<close>\<close>
  "sep_opt = Opt (one_of ''-_.'')"

definition digits :: rx where
  \<comment> \<open>\<open>[0-9]+\<close>\<close>
  "digits = Plus (Cls is_digit)"

definition alnums_i :: rx where
  \<comment> \<open>\<open>[a-z0-9]+\<close> under \<open>re.IGNORECASE\<close>\<close>
  "alnums_i = Plus (Cls (\<lambda>x. is_lower_az (lower_char x) \<or> is_digit x))"

definition VERSION_PATTERN :: rx where
  "VERSION_PATTERN = seqs
     [Opt (chr_i CHR ''v''),
      Opt (Seq (Grp ''epoch'' digits) (chr CHR ''!'')),
      Grp ''release'' (Seq digits (Star (Seq (chr CHR ''.'') digits))),
      Opt (Grp ''pre'' (seqs
         [sep_opt,
          Grp ''pre_l'' (alts (map lit_i
             [''alpha'', ''a'', ''beta'', ''b'', ''preview'', ''pre'', ''c'', ''rc''])),
          sep_opt,
          Opt (Grp ''pre_n'' digits)])),
      Opt (Grp ''post'' (Alt
         (Seq (chr CHR ''-'') (Grp ''post_n1'' digits))
         (seqs
            [sep_opt,
             Grp ''post_l'' (alts (map lit_i [''post'', ''rev'', ''r''])),
             sep_opt,
             Opt (Grp ''post_n2'' digits)]))),
      Opt (Grp ''dev'' (seqs
         [sep_opt,
          Grp ''dev_l'' (lit_i ''dev''),
          sep_opt,
          Opt (Grp ''dev_n'' digits)])),
      Opt (Seq (chr CHR ''+'')
         (Grp ''local'' (Seq alnums_i (Star (Seq (one_of ''-_.'') alnums_i)))))]"

definition version_regex :: rx where
  \<comment> \<open>\<open>Version._regex\<close>\<close>
  "version_regex = seqs [Star (Cls is_space), VERSION_PATTERN, Star (Cls is_space), Eos]"

definition parse_letter_version :: "string option \<Rightarrow> string option \<Rightarrow> (string \<times> nat) option" where
  \<comment> \<open>\<open>_parse_letter_version(letter, number)\<close>\<close>
  "parse_letter_version letter number =
     (case letter of
        Some l \<Rightarrow>
          (let n = (case number of None \<Rightarrow> 0 | Some ds \<Rightarrow> int_of_digits ds);
               l1 = lower l;
               l2 = (if l1 = ''alpha'' then ''a''
                     else if l1 = ''beta'' then ''b''
                     else if l1 \<in> set [''c'', ''pre'', ''preview''] then ''rc''
                     else if l1 \<in> set [''rev'', ''r''] then ''post''
                     else l1)
           in Some (l2, n))
      | None \<Rightarrow>
          (case number of
             Some ds \<Rightarrow> Some (''post'', int_of_digits ds)
           | None \<Rightarrow> None))"

fun split_local :: "string \<Rightarrow> string \<Rightarrow> string list" where
  \<comment> \<open>\<open>re.compile(r"[\._-]").split(local)\<close>; \<open>acc\<close> holds the current part reversed\<close>
  "split_local acc [] = [rev acc]"
| "split_local acc (c # cs) =
     (if c \<in> set ''._-'' then rev acc # split_local [] cs else split_local (c # acc) cs)"

definition isdigit :: "string \<Rightarrow> bool" where
  \<comment> \<open>\<open>str.isdigit\<close> on the characters a local version may hold\<close>
  "isdigit s = (s \<noteq> [] \<and> list_all is_digit s)"

definition parse_local_version :: "string option \<Rightarrow> local_seg list option" where
  \<comment> \<open>\<open>_parse_local_version(local)\<close>\<close>
  "parse_local_version loc =
     (case loc of
        None \<Rightarrow> None
      | Some l \<Rightarrow> Some (map (\<lambda>part. if \<not> isdigit part then LStr (lower part)
                                    else LInt (int_of_digits part))
                           (split_local [] l)))"

definition Version :: "string \<Rightarrow> version option" where
  \<comment> \<open>\<open>Version(s)\<close>; None stands for the exception \<open>InvalidVersion\<close>\<close>
  "Version s =
     (case re_match version_regex s of
        None \<Rightarrow> None
      | Some m \<Rightarrow>
          Some \<lparr> epoch = (case group m ''epoch'' of Some e \<Rightarrow> int_of_digits e | None \<Rightarrow> 0),
                 release = map int_of_digits (split (the (group m ''release'')) ''.''),
                 pre = parse_letter_version (group m ''pre_l'') (group m ''pre_n''),
                 post = parse_letter_version (group m ''post_l'')
                          (case group m ''post_n1'' of Some n \<Rightarrow> Some n | None \<Rightarrow> group m ''post_n2''),
                 dev = parse_letter_version (group m ''dev_l'') (group m ''dev_n''),
                 local = parse_local_version (group m ''local'') \<rparr>)"

definition str_local_seg :: "local_seg \<Rightarrow> string" where
  "str_local_seg x = (case x of LInt n \<Rightarrow> str_nat n | LStr s \<Rightarrow> s)"

definition str_version :: "version \<Rightarrow> string" where
  \<comment> \<open>\<open>Version.__str__\<close>\<close>
  "str_version v =
     (if epoch v \<noteq> 0 then str_nat (epoch v) @ ''!'' else [])
     @ join ''.'' (map str_nat (release v))
     @ (case pre v of None \<Rightarrow> [] | Some (l, n) \<Rightarrow> l @ str_nat n)
     @ (case post v of None \<Rightarrow> [] | Some (l, n) \<Rightarrow> ''.post'' @ str_nat n)
     @ (case dev v of None \<Rightarrow> [] | Some (l, n) \<Rightarrow> ''.dev'' @ str_nat n)
     @ (case local v of None \<Rightarrow> [] | Some segs \<Rightarrow> ''+'' @ join ''.'' (map str_local_seg segs))"

text \<open>
  The comparison key. \<open>_cmpkey\<close> builds a tuple whose components may be the sentinels
  \<open>NegativeInfinity\<close> and \<open>Infinity\<close>; Python compares the tuples component by component.
  Here a sentinel or a value is a pair of a rank (0 for \<open>NegativeInfinity\<close>, 1 for a
  value, 2 for \<open>Infinity\<close>) and the value, and pairs and lists carry their lexicographic
  orders, which is how Python orders tuples and strings.
\<close>

type_synonym bounded_seg = "nat \<times> string \<times> nat"
type_synonym cmpkey =
  "nat \<times> nat list \<times> bounded_seg \<times> bounded_seg \<times> bounded_seg \<times> nat \<times> (nat \<times> nat \<times> string) list"

definition neg_inf :: bounded_seg where
  "neg_inf = (0, [], 0)"

definition pos_inf :: bounded_seg where
  "pos_inf = (2, [], 0)"

definition fin :: "string \<times> nat \<Rightarrow> bounded_seg" where
  "fin x = (1, fst x, snd x)"

definition local_key :: "local_seg \<Rightarrow> nat \<times> nat \<times> string" where
  \<comment> \<open>\<open>(i, "")\<close> for a number, \<open>(NegativeInfinity, s)\<close> for a string\<close>
  "local_key x = (case x of LInt i \<Rightarrow> (1, i, []) | LStr s \<Rightarrow> (0, 0, s))"

definition cmpkey :: "version \<Rightarrow> cmpkey" where
  \<comment> \<open>\<open>_cmpkey(epoch, release, pre, post, dev, local)\<close>\<close>
  "cmpkey v =
     (epoch v,
      rev (dropWhile (\<lambda>x. x = 0) (rev (release v))),
      (if pre v = None \<and> post v = None \<and> dev v \<noteq> None then neg_inf
       else case pre v of None \<Rightarrow> pos_inf | Some p \<Rightarrow> fin p),
      (case post v of None \<Rightarrow> neg_inf | Some p \<Rightarrow> fin p),
      (case dev v of None \<Rightarrow> pos_inf | Some d \<Rightarrow> fin d),
      (case local v of None \<Rightarrow> (0, []) | Some segs \<Rightarrow> (1, map local_key segs)))"

definition version_gt :: "version \<Rightarrow> version \<Rightarrow> bool" where
  \<comment> \<open>\<open>Version.__gt__\<close>\<close>
  "version_gt a b = (cmpkey a > cmpkey b)"

section \<open>\<open>discover_tag.py\<close>\<close>

text \<open>
  The script prints one JSON object and exits with a status. Its outcome is modelled as
  the pair of the object (its keys in the order written, with their values) and the
  exit status.
\<close>

datatype json = JNull | JBool bool | JInt int | JStr string

type_synonym payload = "(string \<times> json) list"
type_synonym outcome = "payload \<times> nat"

definition emit_and_exit :: "payload \<Rightarrow> nat \<Rightarrow> outcome" where
  "emit_and_exit payload exit_code = (payload, exit_code)"

definition output_success :: "string \<Rightarrow> string \<Rightarrow> int option \<Rightarrow> outcome" where
  "output_success tag version commits_behind =
     emit_and_exit
       [(''tag'', JStr tag),
        (''version'', JStr version),
        (''found'', JBool True),
        (''commits_behind'', (case commits_behind of None \<Rightarrow> JNull | Some n \<Rightarrow> JInt n))]
       0"

definition output_not_found :: "string \<Rightarrow> outcome" where
  "output_not_found error =
     emit_and_exit
       [(''tag'', JNull), (''version'', JNull), (''found'', JBool False), (''error'', JStr error)]
       1"

definition output_error :: "string \<Rightarrow> outcome" where
  "output_error error = emit_and_exit [(''error'', JStr error)] 2"

definition parse_tag :: "string \<Rightarrow> version option" where
  \<comment> \<open>\<open>_parse_tag\<close>: \<open>Version(tag.lstrip("v"))\<close>, None on \<open>InvalidVersion\<close>\<close>
  "parse_tag tag = (let raw = lstrip_chars ''v'' tag in Version raw)"

definition is_dev_tag :: "version \<Rightarrow> bool" where
  "is_dev_tag v = (dev v \<noteq> None)"

definition is_rc_tag :: "version \<Rightarrow> bool" where
  "is_rc_tag v = (case pre v of None \<Rightarrow> False | Some p \<Rightarrow> fst p = ''rc'')"

fun filter_loop :: "(version \<Rightarrow> bool) \<Rightarrow> string list \<Rightarrow> (string \<times> version) list" where
  \<comment> \<open>the loop of \<open>_filter_by_pattern\<close>\<close>
  "filter_loop matcher [] = []"
| "filter_loop matcher (tag # tags) =
     (case parse_tag tag of
        Some parsed \<Rightarrow>
          (if matcher parsed then (tag, parsed) # filter_loop matcher tags
           else filter_loop matcher tags)
      | None \<Rightarrow> filter_loop matcher tags)"

definition filter_by_pattern :: "string list \<Rightarrow> string \<Rightarrow> (string \<times> version) list" where
  "filter_by_pattern tags pattern =
     (let matcher = (if pattern = ''dev'' then is_dev_tag else is_rc_tag)
      in filter_loop matcher tags)"

definition split_tag_list :: "string \<Rightarrow> string list" where
  "split_tag_list tag_list_str =
     map strip (filter (\<lambda>tag. strip tag \<noteq> []) (split tag_list_str '',''))"

definition stage_guidance :: "string \<Rightarrow> string" where
  "stage_guidance pattern =
     (if pattern = ''dev'' then ''No dev tags found. Run Stage 1 (Dev Release) first.''
      else ''No rc tags found. Run Stage 2 (RC Release) first.'')"

text \<open>
  \<open>_git_tags\<close> and \<open>_commits_behind\<close> run git as a subprocess. What git answers is a
  parameter of the model: the tag list \<open>_git_tags()\<close> returns, and for each tag what
  \<open>_commits_behind(tag)\<close> returns.
\<close>

record git_env =
  tag_l :: "string list"
  rev_list_count :: "string \<Rightarrow> int option"

definition git_tags :: "git_env \<Rightarrow> string list" where
  "git_tags env = tag_l env"

definition commits_behind :: "git_env \<Rightarrow> string \<Rightarrow> int option" where
  "commits_behind env tag = rev_list_count env tag"

fun max_loop :: "('a \<Rightarrow> version) \<Rightarrow> 'a \<Rightarrow> 'a list \<Rightarrow> 'a" where
  \<comment> \<open>Python's \<open>max(xs, key=key)\<close> after its first item: a later item replaces the
      best so far only when its key is strictly greater\<close>
  "max_loop key best [] = best"
| "max_loop key best (x # xs) = max_loop key (if version_gt (key x) (key best) then x else best) xs"

definition discover :: "git_env \<Rightarrow> string list \<Rightarrow> string \<Rightarrow> bool \<Rightarrow> outcome" where
  "discover env tags pattern use_git =
     (let matched = filter_by_pattern tags pattern in
      case matched of
        [] \<Rightarrow> output_not_found (stage_guidance pattern)
      | m # ms \<Rightarrow>
          (let highest_version = snd (max_loop snd m ms);
               tag_str = ''v'' @ str_version highest_version;
               staleness = (if use_git then commits_behind env tag_str else None)
           in output_success tag_str (str_version highest_version) staleness))"

definition validate :: "string list \<Rightarrow> string \<Rightarrow> outcome" where
  "validate tags target =
     (if target \<in> set tags then
        (case parse_tag target of
           Some parsed \<Rightarrow> output_success target (str_version parsed) None
         | None \<Rightarrow> output_not_found (''Tag '' @ [CHR 0x27] @ target @ [CHR 0x27] @ '' not found in tag list.''))
      else output_not_found (''Tag '' @ [CHR 0x27] @ target @ [CHR 0x27] @ '' not found in tag list.''))"

record args =
  arg_pattern :: string
  arg_validate :: "string option"
  arg_tag_list :: "string option"

definition main :: "git_env \<Rightarrow> args \<Rightarrow> outcome" where
  "main env a =
     (if arg_pattern a \<notin> set [''dev'', ''rc'']
      then output_error (''Invalid pattern '' @ [CHR 0x27] @ arg_pattern a @ [CHR 0x27]
                         @ ''. Must be '' @ [CHR 0x27] @ ''dev'' @ [CHR 0x27]
                         @ '' or '' @ [CHR 0x27] @ ''rc'' @ [CHR 0x27] @ ''.'')
      else
        (let use_git = (arg_tag_list a = None);
             tags = (case arg_tag_list a of None \<Rightarrow> git_tags env | Some l \<Rightarrow> split_tag_list l)
         in case arg_validate a of
              Some target \<Rightarrow> validate tags target
            | None \<Rightarrow> discover env tags (arg_pattern a) use_git))"

section \<open>\<open>generate_changelog.py\<close>: the pure functions\<close>

definition CONVENTIONAL_RE :: rx where
  \<comment> \<open>\<open>^(?P<type>[a-z]+)(?:\((?P<scope>[^)]*)\))?(?P<bang>!)?:\s*(?P<desc>.+)$\<close>;
      \<open>.\<close> is any character but the newline\<close>
  "CONVENTIONAL_RE = seqs
     [Grp ''type'' (Plus (Cls is_lower_az)),
      Opt (seqs [chr CHR ''('', Grp ''scope'' (Star (Cls (\<lambda>x. x \<noteq> CHR '')''))), chr CHR '')'']),
      Opt (Grp ''bang'' (chr CHR ''!'')),
      chr CHR '':'',
      Star (Cls is_space),
      Grp ''desc'' (Plus (Cls (\<lambda>x. x \<noteq> CHR 0x0A))),
      Eos]"

record conventional =
  ctype :: string
  scope :: string
  bang :: bool
  desc :: string

definition parse_conventional_commit :: "string \<Rightarrow> conventional option" where
  "parse_conventional_commit subject =
     (case re_match CONVENTIONAL_RE subject of
        None \<Rightarrow> None
      | Some m \<Rightarrow>
          Some \<lparr> ctype = the (group m ''type''),
                 scope = (case group m ''scope'' of None \<Rightarrow> [] | Some sc \<Rightarrow> sc),
                 bang = (case group m ''bang'' of None \<Rightarrow> False | Some b \<Rightarrow> b \<noteq> []),
                 desc = the (group m ''desc'') \<rparr>)"

text \<open>
  The body of the loop of \<open>_categorize_commits\<close> decides, for the subject and body of
  one record, which of the four lists receives the entry, or that none does. That
  decision (from the exclusion test to the last \<open>else\<close>) is \<open>classify\<close>; the loop
  \<open>categorize_loop\<close> appends the entry to the list it names.
\<close>

datatype classification = Breaking | Feature | Fix | Other | Excluded

definition classify :: "string \<Rightarrow> string \<Rightarrow> classification" where
  "classify subject body =
     (if contains subject ''chore(release):'' \<or> contains subject ''[skip ci]'' then Excluded
      else
        (let parsed = parse_conventional_commit subject;
             is_breaking = ((case parsed of None \<Rightarrow> False | Some p \<Rightarrow> bang p)
                            \<or> contains body ''BREAKING CHANGE:'')
         in if is_breaking then Breaking
            else (case parsed of
                    Some p \<Rightarrow>
                      (if ctype p = ''feat'' then Feature
                       else if ctype p = ''fix'' then Fix
                       else Other)
                  | None \<Rightarrow> Other)))"

text \<open>The four lists the loop fills; \<open>bug_fixes\<close> is the source's list \<open>fixes\<close>.\<close>

record categories =
  breaking :: "string list"
  features :: "string list"
  bug_fixes :: "string list"
  other :: "string list"

definition entry_line :: "string \<Rightarrow> string \<Rightarrow> string" where
  \<comment> \<open>\<open>f"- {subject} (`{sha}`)"\<close>\<close>
  "entry_line subject sha = ''- '' @ subject @ '' (`'' @ sha @ ''`)''"

definition categorize_record :: "categories \<Rightarrow> string \<Rightarrow> categories" where
  \<comment> \<open>one iteration of the loop, on one piece of the split log\<close>
  "categorize_record st record0 =
     (let record = strip record0 in
      if record = [] then st
      else
        (let parts = split record [CHR 0x00] in
         if length parts < 3 then st
         else
           (let subject = strip (parts ! 0);
                body = strip (parts ! 1);
                sha = strip (parts ! 2)
            in if subject = [] \<or> sha = [] then st
               else
                 (let line = entry_line subject sha in
                  case classify subject body of
                    Excluded \<Rightarrow> st
                  | Breaking \<Rightarrow> st\<lparr>breaking := breaking st @ [line]\<rparr>
                  | Feature \<Rightarrow> st\<lparr>features := features st @ [line]\<rparr>
                  | Fix \<Rightarrow> st\<lparr>bug_fixes := bug_fixes st @ [line]\<rparr>
                  | Other \<Rightarrow> st\<lparr>other := other st @ [line]\<rparr>))))"

fun categorize_loop :: "categories \<Rightarrow> string list \<Rightarrow> categories" where
  "categorize_loop st [] = st"
| "categorize_loop st (r # rs) = categorize_loop (categorize_record st r) rs"

definition categorize_commits :: "string \<Rightarrow> (string \<rightharpoonup> string list)" where
  \<comment> \<open>\<open>_categorize_commits\<close>: the dictionary with the four lists\<close>
  "categorize_commits raw_log =
     (let st = categorize_loop \<lparr>breaking = [], features = [], bug_fixes = [], other = []\<rparr>
                 (split raw_log ''<<--EOR-->>'')
      in [''breaking'' \<mapsto> breaking st, ''features'' \<mapsto> features st,
          ''fixes'' \<mapsto> bug_fixes st, ''other'' \<mapsto> other st])"

definition dict_get :: "(string \<rightharpoonup> string list) \<Rightarrow> string \<Rightarrow> string list" where
  \<comment> \<open>\<open>categories.get(key, [])\<close>\<close>
  "dict_get d k = (case d k of None \<Rightarrow> [] | Some l \<Rightarrow> l)"







section \<open>Auxiliary definitions for the statements\<close>

definition no_git :: git_env where
  \<comment> \<open>a git that knows no tag and answers no count\<close>
  "no_git = \<lparr>tag_l = [], rev_list_count = (\<lambda>tag. None)\<rparr>"

definition strip_one_v :: "string \<Rightarrow> string" where
  \<comment> \<open>the specification's wording of the prefix rule: one leading \<open>v\<close> is removed\<close>
  "strip_one_v raw = (case raw of [] \<Rightarrow> [] | c # cs \<Rightarrow> if c = CHR ''v'' then cs else c # cs)"

definition parse_one_v :: "string \<Rightarrow> version option" where
  \<comment> \<open>the specification's wording of \<open>parse\<close>, to compare with \<open>parse_tag\<close>\<close>
  "parse_one_v raw = Version (strip_one_v raw)"

definition dev_version :: "nat list \<Rightarrow> nat \<Rightarrow> version" where
  \<comment> \<open>the version of a plain dev tag \<open>vX.Y.Z.devN\<close>\<close>
  "dev_version r n =
     \<lparr>epoch = 0, release = r, pre = None, post = None, dev = Some (''dev'', n), local = None\<rparr>"


definition reported :: "outcome \<Rightarrow> string \<Rightarrow> json option" where
  \<comment> \<open>the value printed under a key of the JSON object\<close>
  "reported out k = map_of (fst out) k"

definition exit_status :: "outcome \<Rightarrow> nat" where
  "exit_status out = snd out"

definition all_entries :: "(string \<Rightarrow> bool) \<Rightarrow> categories \<Rightarrow> bool" where
  \<comment> \<open>every entry of the four lists satisfies \<open>P\<close>\<close>
  "all_entries P st =
     ((\<forall>e \<in> set (breaking st). P e) \<and> (\<forall>e \<in> set (features st). P e)
      \<and> (\<forall>e \<in> set (bug_fixes st). P e) \<and> (\<forall>e \<in> set (other st). P e))"


definition one_tag_git :: git_env where
  \<comment> \<open>a git whose only tag is \<open>1.0.dev1\<close>, placed at the head: the count for that tag is 0,
      and git answers no count for a name that is not a tag\<close>
  "one_tag_git =
     \<lparr>tag_l = [''1.0.dev1''],
      rev_list_count = (\<lambda>tag. if tag = ''1.0.dev1'' then Some 0 else None)\<rparr>"

section \<open>Properties of tag discovery\<close>

lemma max_loop_mem: "max_loop key best xs \<in> set (best # xs)"
  by (induction xs arbitrary: best) auto

lemma max_loop_ge_best: "cmpkey (key best) \<le> cmpkey (key (max_loop key best xs))"
proof (induction xs arbitrary: best)
  case Nil
  then show ?case by simp
next
  case (Cons x xs)
  show ?case
  proof (cases "version_gt (key x) (key best)")
    case True
    have "cmpkey (key best) \<le> cmpkey (key x)"
      using True by (simp add: version_gt_def)
    also have "\<dots> \<le> cmpkey (key (max_loop key x xs))"
      by (rule Cons.IH)
    finally show ?thesis using True by simp
  next
    case False
    then show ?thesis using Cons.IH [of best] by simp
  qed
qed

lemma max_loop_ge: "x \<in> set (best # xs) \<Longrightarrow> cmpkey (key x) \<le> cmpkey (key (max_loop key best xs))"
proof (induction xs arbitrary: best)
  case Nil
  then show ?case by simp
next
  case (Cons y ys)
  let ?b = "if version_gt (key y) (key best) then y else best"
  have step: "max_loop key best (y # ys) = max_loop key ?b ys" by simp
  consider "x = best" | "x = y" | "x \<in> set ys" using Cons.prems by auto
  then show ?case
  proof cases
    case 1
    then show ?thesis using max_loop_ge_best [of key best "y # ys"] by simp
  next
    case 2
    have "cmpkey (key y) \<le> cmpkey (key ?b)"
      by (simp add: version_gt_def not_less)
    also have "\<dots> \<le> cmpkey (key (max_loop key ?b ys))"
      by (rule max_loop_ge_best)
    finally show ?thesis using 2 step by simp
  next
    case 3
    then have "x \<in> set (?b # ys)" by simp
    then have "cmpkey (key x) \<le> cmpkey (key (max_loop key ?b ys))"
      by (rule Cons.IH)
    then show ?thesis using step by simp
  qed
qed

lemma filter_loop_set:
  "set (filter_loop matcher tags) = {(t, v). t \<in> set tags \<and> parse_tag t = Some v \<and> matcher v}"
  by (induction tags) (auto split: option.splits)

lemma filter_loop_drop_invalid:
  "filter_loop matcher (filter (\<lambda>t. parse_tag t \<noteq> None) tags) = filter_loop matcher tags"
  by (induction tags) (auto split: option.splits)


lemma filter_by_pattern_set:
  "set (filter_by_pattern tags pattern) =
     {(t, v). t \<in> set tags \<and> parse_tag t = Some v
              \<and> (if pattern = ''dev'' then is_dev_tag v else is_rc_tag v)}"
  by (simp add: filter_by_pattern_def filter_loop_set)

lemma discover_found:
  assumes "filter_by_pattern tags pattern \<noteq> []"
  shows "\<exists>t v. (t, v) \<in> set (filter_by_pattern tags pattern)
           \<and> (\<forall>p \<in> set (filter_by_pattern tags pattern). cmpkey (snd p) \<le> cmpkey v)
           \<and> discover env tags pattern use_git =
                output_success (''v'' @ str_version v) (str_version v)
                  (if use_git then commits_behind env (''v'' @ str_version v) else None)"
proof -
  obtain m ms where ms: "filter_by_pattern tags pattern = m # ms"
    using assms by (cases "filter_by_pattern tags pattern") auto
  let ?best = "max_loop snd m ms"
  have mem: "?best \<in> set (filter_by_pattern tags pattern)"
    using max_loop_mem [of snd m ms] ms by simp
  have ge: "\<forall>p \<in> set (filter_by_pattern tags pattern). cmpkey (snd p) \<le> cmpkey (snd ?best)"
    using max_loop_ge [of _ m ms snd] ms by simp
  have out: "discover env tags pattern use_git =
      output_success (''v'' @ str_version (snd ?best)) (str_version (snd ?best))
        (if use_git then commits_behind env (''v'' @ str_version (snd ?best)) else None)"
    by (simp add: discover_def ms Let_def)
  have "(fst ?best, snd ?best) \<in> set (filter_by_pattern tags pattern)" using mem by simp
  then show ?thesis using ge out by blast
qed

lemma parse_rc_dev_tag:
  "parse_tag ''v1.0.0rc1.dev1'' =
     Some \<lparr>epoch = 0, release = [1, 0, 0], pre = Some (''rc'', 1), post = None,
           dev = Some (''dev'', 1), local = None\<rparr>"
  by code_simp

text \<open>
  C10. The dev predicate and the rc predicate are not mutually exclusive: the tag
  \<open>v1.0.0rc1.dev1\<close> parses to a version that satisfies both, so in any collection that
  holds it, it is a candidate of dev discovery and of rc discovery alike.
\<close>

theorem dev_and_rc_predicates_overlap:
  "\<exists>v. parse_tag ''v1.0.0rc1.dev1'' = Some v \<and> is_dev_tag v \<and> is_rc_tag v
       \<and> (\<forall>tags. ''v1.0.0rc1.dev1'' \<in> set tags \<longrightarrow>
             (''v1.0.0rc1.dev1'', v) \<in> set (filter_by_pattern tags ''dev'')
           \<and> (''v1.0.0rc1.dev1'', v) \<in> set (filter_by_pattern tags ''rc''))"
  by (simp add: parse_rc_dev_tag is_dev_tag_def is_rc_tag_def filter_by_pattern_set)

theorem dev_and_rc_predicates_overlap_witness:
  "''v1.0.0rc1.dev1'' \<in> fst ` set (filter_by_pattern [''v1.1.23.dev1'', ''v1.0.0rc1.dev1''] ''dev'')
   \<and> ''v1.0.0rc1.dev1'' \<in> fst ` set (filter_by_pattern [''v1.1.23.dev1'', ''v1.0.0rc1.dev1''] ''rc'')"
proof -
  obtain v where
    v: "\<forall>tags. ''v1.0.0rc1.dev1'' \<in> set tags \<longrightarrow>
             (''v1.0.0rc1.dev1'', v) \<in> set (filter_by_pattern tags ''dev'')
           \<and> (''v1.0.0rc1.dev1'', v) \<in> set (filter_by_pattern tags ''rc'')"
    using dev_and_rc_predicates_overlap by blast
  have "''v1.0.0rc1.dev1'' \<in> set [''v1.1.23.dev1'', ''v1.0.0rc1.dev1'']" by simp
  then have "(''v1.0.0rc1.dev1'', v) \<in> set (filter_by_pattern [''v1.1.23.dev1'', ''v1.0.0rc1.dev1''] ''dev'')
           \<and> (''v1.0.0rc1.dev1'', v) \<in> set (filter_by_pattern [''v1.1.23.dev1'', ''v1.0.0rc1.dev1''] ''rc'')"
    using v by blast
  then show ?thesis by force
qed

















lemma unprefixed_dev_tag:
  "discover no_git [''1.0.dev1''] ''dev'' False = output_success ''v1.0.dev1'' ''1.0.dev1'' None"
  by code_simp

lemma reported_success_tag: "reported (output_success tag version cb) ''tag'' = Some (JStr tag)"
  by (simp add: reported_def output_success_def emit_and_exit_def)

text \<open>
  C2. The code departs from the claim. \<open>_filter_by_pattern\<close> carries with each version
  the tag as supplied, but discover drops it and reports the letter \<open>v\<close> followed by the
  canonical text of the greatest version, where \<open>validate\<close> returns the tag as supplied.
  For the collection holding only \<open>1.0.dev1\<close> discover reports found with the tag
  \<open>v1.0.dev1\<close>, which is not a member of the collection.
\<close>

theorem discover_reports_unsupplied_tag:
  "filter_by_pattern [''1.0.dev1''] ''dev'' \<noteq> []
   \<and> reported (discover no_git [''1.0.dev1''] ''dev'' False) ''tag'' = Some (JStr ''v1.0.dev1'')
   \<and> ''v1.0.dev1'' \<notin> set [''1.0.dev1'']"
proof -
  have "filter_by_pattern [''1.0.dev1''] ''dev'' \<noteq> []"
    by code_simp
  then show ?thesis
    by (simp add: unprefixed_dev_tag reported_success_tag)
qed

text \<open>
  What discover does report: the tag is rebuilt from the greatest version among the
  candidates, which is the parsed version of a member of the supplied collection, and so
  the reported tag is that member only when the member is written in canonical form. On
  the git path the rebuilt name is also the one whose staleness is asked of git: with a
  git whose only tag is \<open>1.0.dev1\<close>, at the head, the result is found with no staleness.
\<close>

lemma discover_reports_canonical_tag:
  assumes "pattern \<in> {''dev'', ''rc''}" and "filter_by_pattern tags pattern \<noteq> []"
  shows "\<exists>t v. t \<in> set tags \<and> parse_tag t = Some v
           \<and> (if pattern = ''dev'' then is_dev_tag v else is_rc_tag v)
           \<and> (\<forall>t' v'. t' \<in> set tags \<and> parse_tag t' = Some v'
                  \<and> (if pattern = ''dev'' then is_dev_tag v' else is_rc_tag v')
                  \<longrightarrow> cmpkey v' \<le> cmpkey v)
           \<and> reported (discover env tags pattern use_git) ''tag'' = Some (JStr (''v'' @ str_version v))
           \<and> reported (discover env tags pattern use_git) ''version'' = Some (JStr (str_version v))
           \<and> (t = ''v'' @ str_version v \<longrightarrow>
                reported (discover env tags pattern use_git) ''tag'' = Some (JStr t))"
proof -
  obtain t v where tv: "(t, v) \<in> set (filter_by_pattern tags pattern)"
    and ge: "\<forall>p \<in> set (filter_by_pattern tags pattern). cmpkey (snd p) \<le> cmpkey v"
    and out: "discover env tags pattern use_git =
                output_success (''v'' @ str_version v) (str_version v)
                  (if use_git then commits_behind env (''v'' @ str_version v) else None)"
    using discover_found [OF assms(2), of env use_git] by blast
  have mem: "t \<in> set tags" "parse_tag t = Some v"
    "if pattern = ''dev'' then is_dev_tag v else is_rc_tag v"
    using tv by (simp_all add: filter_by_pattern_set)
  have max: "\<forall>t' v'. t' \<in> set tags \<and> parse_tag t' = Some v'
                  \<and> (if pattern = ''dev'' then is_dev_tag v' else is_rc_tag v')
                  \<longrightarrow> cmpkey v' \<le> cmpkey v"
  proof (intro allI impI)
    fix t' v'
    assume "t' \<in> set tags \<and> parse_tag t' = Some v'
              \<and> (if pattern = ''dev'' then is_dev_tag v' else is_rc_tag v')"
    then have "(t', v') \<in> set (filter_by_pattern tags pattern)"
      by (simp add: filter_by_pattern_set)
    then show "cmpkey v' \<le> cmpkey v" using ge by force
  qed
  have tag: "reported (discover env tags pattern use_git) ''tag'' = Some (JStr (''v'' @ str_version v))"
    by (simp add: out reported_success_tag)
  have ver: "reported (discover env tags pattern use_git) ''version'' = Some (JStr (str_version v))"
    by (simp add: out reported_def output_success_def emit_and_exit_def)
  show ?thesis using mem max tag ver by metis
qed

lemma rebuilt_tag_staleness:
  "main one_tag_git \<lparr>arg_pattern = ''dev'', arg_validate = None, arg_tag_list = None\<rparr>
   = output_success ''v1.0.dev1'' ''1.0.dev1'' None"
  by code_simp

lemma supplied_tag_staleness: "commits_behind one_tag_git ''1.0.dev1'' = Some 0"
  by (simp add: commits_behind_def one_tag_git_def)

lemma lstrip_v_Cons: "lstrip_chars ''v'' (CHR ''v'' # tag) = lstrip_chars ''v'' tag"
  by (simp add: lstrip_chars_def)

lemma parse_tag_leading_v: "parse_tag (CHR ''v'' # tag) = parse_tag tag"
  by (simp add: parse_tag_def lstrip_v_Cons)

lemma parse_tag_not_a_version: "parse_tag ''not-a-version'' = None"
  by code_simp

lemma parse_tag_garbage: "parse_tag ''garbage'' = None"
  by code_simp

lemma parse_tag_three_v: "parse_tag ''vvv1.0.dev1'' = Some (dev_version [1, 0] 1)"
  by code_simp

lemma parse_one_v_three_v: "parse_one_v ''vvv1.0.dev1'' = None"
  by code_simp

lemma filter_by_pattern_drop_invalid:
  "filter_by_pattern (filter (\<lambda>t. parse_tag t \<noteq> None) tags) pattern
   = filter_by_pattern tags pattern"
  unfolding filter_by_pattern_def Let_def by (simp only: filter_loop_drop_invalid)

lemma discover_drop_invalid:
  "discover env (filter (\<lambda>t. parse_tag t \<noteq> None) tags) pattern use_git
   = discover env tags pattern use_git"
  unfolding discover_def by (simp only: filter_by_pattern_drop_invalid)

lemma filter_invalid_example:
  "filter (\<lambda>t. parse_tag t \<noteq> None) [''not-a-version'', ''v1.1.22.dev1'', ''garbage'', ''v1.1.23.dev1'']
   = [''v1.1.22.dev1'', ''v1.1.23.dev1'']"
  by code_simp

text \<open>
  C5, as stated, fails: parse does not strip exactly one leading \<open>v\<close>. The tag
  \<open>vvv1.0.dev1\<close> parses, although with one \<open>v\<close> removed it does not conform to the
  version grammar.
\<close>

theorem parse_strips_more_than_one_v:
  "parse_tag ''vvv1.0.dev1'' = Some (dev_version [1, 0] 1) \<and> parse_one_v ''vvv1.0.dev1'' = None"
  by (simp add: parse_tag_three_v parse_one_v_three_v)

text \<open>
  C5, amended. Parse strips every leading \<open>v\<close> and yields invalid, as a value, for a
  string that does not then conform to the version grammar, such as \<open>not-a-version\<close>
  and \<open>garbage\<close>; consequently, for every tag collection and stage, discover over the
  collection gives the same result as discover over the collection with the entries
  that do not parse removed, as it does for the collection of the test.
\<close>

theorem invalid_tags_are_dropped:
  "(\<forall>tag. parse_tag (CHR ''v'' # tag) = parse_tag tag)
   \<and> parse_tag ''not-a-version'' = None
   \<and> parse_tag ''garbage'' = None
   \<and> (\<forall>env tags pattern use_git.
         discover env (filter (\<lambda>t. parse_tag t \<noteq> None) tags) pattern use_git
         = discover env tags pattern use_git)
   \<and> (\<forall>env pattern use_git.
         discover env [''not-a-version'', ''v1.1.22.dev1'', ''garbage'', ''v1.1.23.dev1''] pattern use_git
         = discover env [''v1.1.22.dev1'', ''v1.1.23.dev1''] pattern use_git)"
proof -
  have "\<forall>env pattern use_git.
         discover env [''not-a-version'', ''v1.1.22.dev1'', ''garbage'', ''v1.1.23.dev1''] pattern use_git
         = discover env [''v1.1.22.dev1'', ''v1.1.23.dev1''] pattern use_git"
    using discover_drop_invalid
      [of _ "[''not-a-version'', ''v1.1.22.dev1'', ''garbage'', ''v1.1.23.dev1'']"]
    by (simp only: filter_invalid_example) simp
  then show ?thesis
    using parse_tag_leading_v parse_tag_not_a_version parse_tag_garbage discover_drop_invalid
    by blast
qed

lemma reported_found_success: "reported (output_success tag version cb) ''found'' = Some (JBool True)"
  by (simp add: reported_def output_success_def emit_and_exit_def)

lemma reported_found_not_found: "reported (output_not_found e) ''found'' = Some (JBool False)"
  by (simp add: reported_def output_not_found_def emit_and_exit_def)

lemma validate_present:
  "target \<in> set tags \<Longrightarrow> parse_tag target = Some v
   \<Longrightarrow> validate tags target = output_success target (str_version v) None"
  by (simp add: validate_def)

lemma validate_absent:
  "\<not> (target \<in> set tags \<and> parse_tag target \<noteq> None)
   \<Longrightarrow> validate tags target
       = output_not_found (''Tag '' @ [CHR 0x27] @ target @ [CHR 0x27] @ '' not found in tag list.'')"
  by (auto simp: validate_def split: option.splits)

lemma validate_v9: "validate [''v1.1.22.dev1'', ''v9'', ''v10''] ''v9'' = output_success ''v9'' ''9'' None"
  by code_simp

text \<open>
  C6. For every collection of tags and every target, validate reports found exactly
  when the target is a member of the collection, verbatim, and parses. On success it
  returns the target as given, with the text of its own parsed version and no
  staleness, and the outcome is the one for the collection holding the target alone:
  no other member of the collection has a part in it. Otherwise it reports not-found.
\<close>

theorem validate_membership_and_parse:
  "reported (validate tags target) ''found''
     = Some (JBool (target \<in> set tags \<and> parse_tag target \<noteq> None))
   \<and> (target \<in> set tags \<and> parse_tag target \<noteq> None \<longrightarrow>
        validate tags target = output_success target (str_version (the (parse_tag target))) None
      \<and> validate tags target = validate [target] target
      \<and> exit_status (validate tags target) = 0)
   \<and> (\<not> (target \<in> set tags \<and> parse_tag target \<noteq> None) \<longrightarrow>
        validate tags target
          = output_not_found (''Tag '' @ [CHR 0x27] @ target @ [CHR 0x27] @ '' not found in tag list.'')
      \<and> exit_status (validate tags target) = 1)"
proof (cases "target \<in> set tags \<and> parse_tag target \<noteq> None")
  case True
  then obtain v where v: "parse_tag target = Some v" by auto
  have a: "validate tags target = output_success target (str_version v) None"
    using True v by (simp add: validate_present)
  have b: "validate [target] target = output_success target (str_version v) None"
    using v by (simp add: validate_present)
  have c: "exit_status (validate tags target) = 0"
    by (simp add: a exit_status_def output_success_def emit_and_exit_def)
  show ?thesis using True v a b c by (simp add: reported_found_success)
next
  case False
  have a: "validate tags target
          = output_not_found (''Tag '' @ [CHR 0x27] @ target @ [CHR 0x27] @ '' not found in tag list.'')"
    using False by (rule validate_absent)
  have c: "exit_status (validate tags target) = 1"
    by (simp add: a exit_status_def output_not_found_def emit_and_exit_def)
  show ?thesis using False a c by (simp add: reported_found_not_found)
qed

theorem validate_membership_and_parse_witness:
  "''v9'' \<in> set [''v1.1.22.dev1'', ''v9'', ''v10''] \<and> parse_tag ''v9'' \<noteq> None
   \<and> validate [''v1.1.22.dev1'', ''v9'', ''v10''] ''v9'' = validate [''v9''] ''v9''
   \<and> exit_status (validate [''v1.1.22.dev1'', ''v9'', ''v10''] ''v9'') = 0
   \<and> \<not> (''v8'' \<in> set [''v1.1.22.dev1'', ''v9'', ''v10''] \<and> parse_tag ''v8'' \<noteq> None)
   \<and> exit_status (validate [''v1.1.22.dev1'', ''v9'', ''v10''] ''v8'') = 1"
proof -
  have p: "parse_tag ''v9'' \<noteq> None" by code_simp
  have m: "''v9'' \<in> set [''v1.1.22.dev1'', ''v9'', ''v10'']" by simp
  have n: "\<not> (''v8'' \<in> set [''v1.1.22.dev1'', ''v9'', ''v10''] \<and> parse_tag ''v8'' \<noteq> None)" by simp
  show ?thesis
    using validate_membership_and_parse [of "[''v1.1.22.dev1'', ''v9'', ''v10'']" "''v9''"]
      validate_membership_and_parse [of "[''v1.1.22.dev1'', ''v9'', ''v10'']" "''v8''"] p m n
    by blast
qed

lemma discover_empty:
  "filter_by_pattern tags pattern = []
   \<Longrightarrow> discover env tags pattern use_git = output_not_found (stage_guidance pattern)"
  by (simp add: discover_def)

lemma guidance_differs: "stage_guidance ''dev'' \<noteq> stage_guidance ''rc''"
  by (simp add: stage_guidance_def)

lemma main_invalid_pattern:
  "arg_pattern a \<notin> {''dev'', ''rc''}
   \<Longrightarrow> main env a = output_error (''Invalid pattern '' @ [CHR 0x27] @ arg_pattern a @ [CHR 0x27]
                         @ ''. Must be '' @ [CHR 0x27] @ ''dev'' @ [CHR 0x27]
                         @ '' or '' @ [CHR 0x27] @ ''rc'' @ [CHR 0x27] @ ''.'')"
  by (simp add: main_def)

text \<open>
  C7. Discovery over a collection with no candidate for the stage returns not-found,
  with exit status 1 and the guidance text of the stage, and the guidance for dev
  differs from the guidance for rc. A stage other than dev and rc makes \<open>main\<close> report
  an invalid-request error: an object with the error text only (no \<open>found\<close> key) and
  exit status 2, whatever the tags are, so the stage is never taken for dev or rc.
\<close>

theorem not_found_guidance_and_invalid_stage:
  "(filter_by_pattern tags pattern = [] \<longrightarrow>
      discover env tags pattern use_git = output_not_found (stage_guidance pattern)
    \<and> exit_status (discover env tags pattern use_git) = 1
    \<and> reported (discover env tags pattern use_git) ''found'' = Some (JBool False)
    \<and> reported (discover env tags pattern use_git) ''error'' = Some (JStr (stage_guidance pattern)))
   \<and> stage_guidance ''dev'' \<noteq> stage_guidance ''rc''
   \<and> (arg_pattern a \<notin> {''dev'', ''rc''} \<longrightarrow>
        (\<exists>msg. main env a = output_error msg)
      \<and> exit_status (main env a) = 2
      \<and> reported (main env a) ''found'' = None
      \<and> reported (main env a) ''tag'' = None
      \<and> (\<forall>e. main env a \<noteq> output_not_found e)
      \<and> (\<forall>t v cb. main env a \<noteq> output_success t v cb))"
proof -
  have a: "filter_by_pattern tags pattern = [] \<longrightarrow>
      discover env tags pattern use_git = output_not_found (stage_guidance pattern)
    \<and> exit_status (discover env tags pattern use_git) = 1
    \<and> reported (discover env tags pattern use_git) ''found'' = Some (JBool False)
    \<and> reported (discover env tags pattern use_git) ''error'' = Some (JStr (stage_guidance pattern))"
    by (simp add: discover_empty exit_status_def reported_def output_not_found_def emit_and_exit_def)
  have b: "arg_pattern a \<notin> {''dev'', ''rc''} \<longrightarrow>
        (\<exists>msg. main env a = output_error msg)
      \<and> exit_status (main env a) = 2
      \<and> reported (main env a) ''found'' = None
      \<and> reported (main env a) ''tag'' = None
      \<and> (\<forall>e. main env a \<noteq> output_not_found e)
      \<and> (\<forall>t v cb. main env a \<noteq> output_success t v cb)"
    by (simp add: main_invalid_pattern exit_status_def reported_def output_error_def
        output_not_found_def output_success_def emit_and_exit_def)
  show ?thesis using a b guidance_differs by blast
qed

theorem not_found_guidance_and_invalid_stage_witness:
  "filter_by_pattern [''v1.0.0''] ''dev'' = []
   \<and> exit_status (discover no_git [''v1.0.0''] ''dev'' False) = 1
   \<and> reported (discover no_git [''v1.0.0''] ''dev'' False) ''error''
       = Some (JStr ''No dev tags found. Run Stage 1 (Dev Release) first.'')
   \<and> ''stable'' \<notin> {''dev'', ''rc''}
   \<and> exit_status (main no_git \<lparr>arg_pattern = ''stable'', arg_validate = None,
                                  arg_tag_list = Some ''v1.0.0''\<rparr>) = 2"
proof -
  have e: "filter_by_pattern [''v1.0.0''] ''dev'' = []" by code_simp
  have s: "arg_pattern \<lparr>arg_pattern = ''stable'', arg_validate = None, arg_tag_list = Some ''v1.0.0''\<rparr>
             \<notin> {''dev'', ''rc''}" by simp
  have g: "stage_guidance ''dev'' = ''No dev tags found. Run Stage 1 (Dev Release) first.''"
    by (simp add: stage_guidance_def)
  show ?thesis
    using not_found_guidance_and_invalid_stage
      [of "[''v1.0.0'']" "''dev''" no_git False
          "\<lparr>arg_pattern = ''stable'', arg_validate = None, arg_tag_list = Some ''v1.0.0''\<rparr>"]
      e s g
    by (simp add: exit_status_def reported_def output_not_found_def emit_and_exit_def)
qed

lemma reported_commits_behind:
  "reported (output_success tag version cb) ''commits_behind''
   = Some (case cb of None \<Rightarrow> JNull | Some n \<Rightarrow> JInt n)"
  by (simp add: reported_def output_success_def emit_and_exit_def)

lemma reported_commits_behind_not_found: "reported (output_not_found e) ''commits_behind'' = None"
  by (simp add: reported_def output_not_found_def emit_and_exit_def)

lemma exit_status_not_found: "exit_status (output_not_found e) = 1"
  by (simp add: exit_status_def output_not_found_def emit_and_exit_def)

lemma discover_without_git:
  "exit_status (discover env tags pattern False) = 0
   \<Longrightarrow> reported (discover env tags pattern False) ''commits_behind'' = Some JNull"
  by (cases "filter_by_pattern tags pattern")
     (simp_all add: discover_def Let_def exit_status_not_found reported_commits_behind)

lemma discover_without_git_env:
  "discover env tags pattern False = discover env' tags pattern False"
  by (simp add: discover_def Let_def split: list.splits)

lemma validate_staleness:
  "exit_status (validate tags target) = 0
   \<Longrightarrow> reported (validate tags target) ''commits_behind'' = Some JNull"
  by (auto simp: validate_def exit_status_not_found reported_commits_behind split: option.splits if_splits)

lemma main_explicit_list:
  "arg_pattern a \<in> {''dev'', ''rc''} \<Longrightarrow> arg_tag_list a = Some l \<Longrightarrow> arg_validate a = None
   \<Longrightarrow> main env a = discover env (split_tag_list l) (arg_pattern a) False"
  by (simp add: main_def)

lemma main_live_history:
  "arg_pattern a \<in> {''dev'', ''rc''} \<Longrightarrow> arg_tag_list a = None \<Longrightarrow> arg_validate a = None
   \<Longrightarrow> main env a = discover env (git_tags env) (arg_pattern a) True"
  by (simp add: main_def)

lemma main_explicit_list_env:
  assumes "arg_tag_list a = Some l"
  shows "main env a = main env' a"
proof (cases "arg_pattern a \<in> {''dev'', ''rc''}")
  case True
  then show ?thesis
    using assms discover_without_git_env [of env _ _ env']
    by (cases "arg_validate a") (simp_all add: main_def)
next
  case False
  then show ?thesis by (simp add: main_def)
qed

lemma main_explicit_list_staleness:
  assumes "arg_tag_list a = Some l" and "exit_status (main env a) = 0"
  shows "reported (main env a) ''commits_behind'' = Some JNull"
proof (cases "arg_pattern a \<in> {''dev'', ''rc''}")
  case True
  show ?thesis
  proof (cases "arg_validate a")
    case None
    then show ?thesis
      using True assms discover_without_git [of env "split_tag_list l" "arg_pattern a"]
      by (simp add: main_def)
  next
    case (Some target)
    then show ?thesis
      using True assms validate_staleness [of "split_tag_list l" target]
      by (simp add: main_def)
  qed
next
  case False
  then show ?thesis
    using assms(2) by (simp add: main_def exit_status_def output_error_def emit_and_exit_def)
qed

lemma reported_error_success: "reported (output_success tag version cb) ''error'' = None"
  by (simp add: reported_def output_success_def emit_and_exit_def)

lemma exit_status_error: "exit_status (output_error e) = 2"
  by (simp add: exit_status_def output_error_def emit_and_exit_def)

lemma discover_success_no_error:
  "exit_status (discover env tags pattern use_git) = 0
   \<Longrightarrow> reported (discover env tags pattern use_git) ''error'' = None"
  by (cases "filter_by_pattern tags pattern")
     (simp_all add: discover_def Let_def exit_status_not_found reported_error_success)

lemma validate_success_no_error:
  "exit_status (validate tags target) = 0 \<Longrightarrow> reported (validate tags target) ''error'' = None"
  by (auto simp: validate_def exit_status_not_found reported_error_success
           split: option.splits if_splits)

lemma main_explicit_list_no_error:
  assumes "arg_tag_list a = Some l" and "exit_status (main env a) = 0"
  shows "reported (main env a) ''error'' = None"
proof (cases "arg_pattern a \<in> {''dev'', ''rc''}")
  case True
  show ?thesis
  proof (cases "arg_validate a")
    case None
    then show ?thesis
      using True assms discover_success_no_error [of env "split_tag_list l" "arg_pattern a" False]
      by (simp add: main_def)
  next
    case (Some target)
    then show ?thesis
      using True assms validate_success_no_error [of "split_tag_list l" target]
      by (simp add: main_def)
  qed
next
  case False
  then show ?thesis
    using assms(2) by (simp add: main_def exit_status_error)
qed

text \<open>
  C9. When the caller supplies the tag collection, a successful result carries the
  unavailable value for \<open>commits_behind\<close> (JSON null, neither zero nor an error), and
  the outcome does not depend on git at all. The two paths exclude each other: with a
  supplied collection discovery runs on that collection with staleness switched off,
  and without one it runs on the tags of git with staleness measured by git.
\<close>

theorem explicit_collection_has_no_staleness:
  "(arg_tag_list a = Some l \<longrightarrow>
      (\<forall>env'. main env a = main env' a)
    \<and> (exit_status (main env a) = 0 \<longrightarrow>
          reported (main env a) ''commits_behind'' = Some JNull
        \<and> reported (main env a) ''commits_behind'' \<noteq> Some (JInt 0)
        \<and> reported (main env a) ''error'' = None))
   \<and> (arg_pattern a \<in> {''dev'', ''rc''} \<and> arg_validate a = None \<longrightarrow>
        (arg_tag_list a = Some l \<longrightarrow>
           main env a = discover env (split_tag_list l) (arg_pattern a) False)
      \<and> (arg_tag_list a = None \<longrightarrow>
           main env a = discover env (git_tags env) (arg_pattern a) True))"
proof (intro conjI impI allI)
  fix env'
  assume "arg_tag_list a = Some l"
  then show "main env a = main env' a" by (rule main_explicit_list_env)
next
  assume "arg_tag_list a = Some l" and "exit_status (main env a) = 0"
  then show "reported (main env a) ''commits_behind'' = Some JNull"
    by (rule main_explicit_list_staleness)
next
  assume "arg_tag_list a = Some l" and "exit_status (main env a) = 0"
  then have "reported (main env a) ''commits_behind'' = Some JNull"
    by (rule main_explicit_list_staleness)
  then show "reported (main env a) ''commits_behind'' \<noteq> Some (JInt 0)" by simp
next
  assume "arg_tag_list a = Some l" and "exit_status (main env a) = 0"
  then show "reported (main env a) ''error'' = None"
    by (rule main_explicit_list_no_error)
next
  assume "arg_pattern a \<in> {''dev'', ''rc''} \<and> arg_validate a = None" and "arg_tag_list a = Some l"
  then show "main env a = discover env (split_tag_list l) (arg_pattern a) False"
    by (simp add: main_explicit_list)
next
  assume "arg_pattern a \<in> {''dev'', ''rc''} \<and> arg_validate a = None" and "arg_tag_list a = None"
  then show "main env a = discover env (git_tags env) (arg_pattern a) True"
    by (simp add: main_live_history)
qed

theorem explicit_collection_has_no_staleness_witness:
  "arg_tag_list \<lparr>arg_pattern = ''dev'', arg_validate = None, arg_tag_list = Some ''v1.1.23.dev1''\<rparr>
     = Some ''v1.1.23.dev1''
   \<and> exit_status (main \<lparr>tag_l = [], rev_list_count = (\<lambda>tag. Some 0)\<rparr>
        \<lparr>arg_pattern = ''dev'', arg_validate = None, arg_tag_list = Some ''v1.1.23.dev1''\<rparr>) = 0
   \<and> reported (main \<lparr>tag_l = [], rev_list_count = (\<lambda>tag. Some 0)\<rparr>
        \<lparr>arg_pattern = ''dev'', arg_validate = None, arg_tag_list = Some ''v1.1.23.dev1''\<rparr>)
        ''commits_behind'' = Some JNull"
proof -
  let ?a = "\<lparr>arg_pattern = ''dev'', arg_validate = None, arg_tag_list = Some ''v1.1.23.dev1''\<rparr>"
  let ?env = "\<lparr>tag_l = [], rev_list_count = (\<lambda>tag. Some (0::int))\<rparr>"
  have l: "arg_tag_list ?a = Some ''v1.1.23.dev1''" by simp
  have ok: "exit_status (main ?env ?a) = 0"
    by code_simp
  show ?thesis
    using explicit_collection_has_no_staleness [of ?a "''v1.1.23.dev1''" ?env] l ok
    by blast
qed

section \<open>Properties of commit classification\<close>

lemma parse_feat_bang:
  "parse_conventional_commit ''feat!: x'' = Some \<lparr>ctype = ''feat'', scope = [], bang = True, desc = ''x''\<rparr>"
  by code_simp

lemma feat_bang_not_excluded:
  "\<not> contains ''feat!: x'' ''chore(release):'' \<and> \<not> contains ''feat!: x'' ''[skip ci]''"
  by code_simp

lemma classify_feat_bang: "classify ''feat!: x'' body = Breaking"
  using feat_bang_not_excluded by (simp add: classify_def parse_feat_bang)

lemma parse_update_readme: "parse_conventional_commit ''update readme'' = None"
  by code_simp

lemma classify_body_marker: "classify ''update readme'' ''BREAKING CHANGE: api'' = Breaking"
  by code_simp

lemma classify_plain_subject: "classify ''update readme'' '''' = Other"
  by code_simp

lemma classify_breaking_iff:
  assumes "classify subject body \<noteq> Excluded"
  shows "classify subject body = Breaking \<longleftrightarrow>
           (\<exists>p. parse_conventional_commit subject = Some p \<and> bang p)
           \<or> contains body ''BREAKING CHANGE:''"
proof -
  have ne: "\<not> (contains subject ''chore(release):'' \<or> contains subject ''[skip ci]'')"
    using assms by (auto simp: classify_def)
  show ?thesis
  proof (cases "parse_conventional_commit subject")
    case None
    then show ?thesis using ne by (simp add: classify_def)
  next
    case (Some p)
    then show ?thesis using ne by (simp add: classify_def)
  qed
qed

lemma classify_no_match:
  assumes "classify subject body \<noteq> Excluded"
    and "parse_conventional_commit subject = None"
    and "\<not> contains body ''BREAKING CHANGE:''"
  shows "classify subject body = Other"
proof -
  have ne: "\<not> (contains subject ''chore(release):'' \<or> contains subject ''[skip ci]'')"
    using assms(1) by (auto simp: classify_def)
  show ?thesis using ne assms(2,3) by (simp add: classify_def)
qed

text \<open>
  C3, as stated, fails: a subject that does not match the grammar does not always fall
  through to \<open>other\<close>. The subject \<open>update readme\<close> does not match, and with a body that
  holds \<open>BREAKING CHANGE:\<close> the commit is classified as breaking.
\<close>

theorem body_marker_alone_is_breaking:
  "parse_conventional_commit ''update readme'' = None
   \<and> classify ''update readme'' ''BREAKING CHANGE: api'' = Breaking"
  by (simp add: parse_update_readme classify_body_marker)

text \<open>
  C3, amended. For every commit that is not excluded, the classification is breaking
  exactly when the subject matches the grammar with the \<open>!\<close> marker present, or the body
  contains \<open>BREAKING CHANGE:\<close> (whether the subject matches the grammar or not). In
  particular \<open>feat!: x\<close> is breaking, not a feature; and a subject that does not match
  the grammar, with a body without the marker, is classified as other.
\<close>

theorem breaking_precedence:
  "(classify subject body \<noteq> Excluded \<longrightarrow>
      (classify subject body = Breaking \<longleftrightarrow>
         (\<exists>p. parse_conventional_commit subject = Some p \<and> bang p)
         \<or> contains body ''BREAKING CHANGE:''))
   \<and> (\<forall>b. classify ''feat!: x'' b = Breaking)
   \<and> (classify subject body \<noteq> Excluded \<and> parse_conventional_commit subject = None
        \<and> \<not> contains body ''BREAKING CHANGE:'' \<longrightarrow> classify subject body = Other)"
proof (intro conjI impI allI)
  assume "classify subject body \<noteq> Excluded"
  then show "classify subject body = Breaking \<longleftrightarrow>
         (\<exists>p. parse_conventional_commit subject = Some p \<and> bang p)
         \<or> contains body ''BREAKING CHANGE:''"
    by (rule classify_breaking_iff)
next
  fix b
  show "classify ''feat!: x'' b = Breaking" by (rule classify_feat_bang)
next
  assume "classify subject body \<noteq> Excluded \<and> parse_conventional_commit subject = None
        \<and> \<not> contains body ''BREAKING CHANGE:''"
  then show "classify subject body = Other"
    using classify_no_match by blast
qed

theorem breaking_precedence_witness:
  "classify ''update readme'' ''BREAKING CHANGE: api'' \<noteq> Excluded
   \<and> contains ''BREAKING CHANGE: api'' ''BREAKING CHANGE:''
   \<and> classify ''update readme'' ''BREAKING CHANGE: api'' = Breaking
   \<and> classify ''update readme'' '''' \<noteq> Excluded
   \<and> parse_conventional_commit ''update readme'' = None
   \<and> \<not> contains '''' ''BREAKING CHANGE:''
   \<and> classify ''update readme'' '''' = Other"
proof -
  have a: "classify ''update readme'' ''BREAKING CHANGE: api'' \<noteq> Excluded"
    by (simp add: classify_body_marker)
  have b: "contains ''BREAKING CHANGE: api'' ''BREAKING CHANGE:''"
    by code_simp
  have c: "classify ''update readme'' '''' \<noteq> Excluded"
    by (simp add: classify_plain_subject)
  have d: "\<not> contains '''' ''BREAKING CHANGE:''"
    by simp
  show ?thesis
    using breaking_precedence [of "''update readme''" "''BREAKING CHANGE: api''"]
      breaking_precedence [of "''update readme''" "''''"] a b c d parse_update_readme
    by blast
qed

lemma classify_excluded:
  "contains subject ''chore(release):'' \<or> contains subject ''[skip ci]''
   \<Longrightarrow> classify subject body = Excluded"
  by (simp add: classify_def)

lemma classify_not_excluded:
  "classify subject body \<noteq> Excluded
   \<Longrightarrow> \<not> contains subject ''chore(release):'' \<and> \<not> contains subject ''[skip ci]''"
  by (auto simp: classify_def)

lemma categorize_record_cases:
  "categorize_record st r = st
   \<or> (\<exists>subject body sha. classify subject body \<noteq> Excluded
        \<and> (categorize_record st r = st\<lparr>breaking := breaking st @ [entry_line subject sha]\<rparr>
           \<or> categorize_record st r = st\<lparr>features := features st @ [entry_line subject sha]\<rparr>
           \<or> categorize_record st r = st\<lparr>bug_fixes := bug_fixes st @ [entry_line subject sha]\<rparr>
           \<or> categorize_record st r = st\<lparr>other := other st @ [entry_line subject sha]\<rparr>))"
proof -
  let ?parts = "split (strip r) [CHR 0x00]"
  let ?subject = "strip (?parts ! 0)"
  let ?body = "strip (?parts ! 1)"
  let ?sha = "strip (?parts ! 2)"
  show ?thesis
  proof (cases "strip r = [] \<or> length ?parts < 3 \<or> ?subject = [] \<or> ?sha = []")
    case True
    then have "categorize_record st r = st"
      by (auto simp: categorize_record_def Let_def)
    then show ?thesis by simp
  next
    case False
    then have step: "categorize_record st r =
        (case classify ?subject ?body of
           Excluded \<Rightarrow> st
         | Breaking \<Rightarrow> st\<lparr>breaking := breaking st @ [entry_line ?subject ?sha]\<rparr>
         | Feature \<Rightarrow> st\<lparr>features := features st @ [entry_line ?subject ?sha]\<rparr>
         | Fix \<Rightarrow> st\<lparr>bug_fixes := bug_fixes st @ [entry_line ?subject ?sha]\<rparr>
         | Other \<Rightarrow> st\<lparr>other := other st @ [entry_line ?subject ?sha]\<rparr>)"
      by (simp add: categorize_record_def Let_def)
    show ?thesis
    proof (cases "classify ?subject ?body")
      case Excluded
      then show ?thesis using step by simp
    next
      case Breaking
      then have "classify ?subject ?body \<noteq> Excluded" by simp
      moreover have "categorize_record st r = st\<lparr>breaking := breaking st @ [entry_line ?subject ?sha]\<rparr>"
        using step Breaking by simp
      ultimately show ?thesis by blast
    next
      case Feature
      then have "classify ?subject ?body \<noteq> Excluded" by simp
      moreover have "categorize_record st r = st\<lparr>features := features st @ [entry_line ?subject ?sha]\<rparr>"
        using step Feature by simp
      ultimately show ?thesis by blast
    next
      case Fix
      then have "classify ?subject ?body \<noteq> Excluded" by simp
      moreover have "categorize_record st r = st\<lparr>bug_fixes := bug_fixes st @ [entry_line ?subject ?sha]\<rparr>"
        using step Fix by simp
      ultimately show ?thesis by blast
    next
      case Other
      then have "classify ?subject ?body \<noteq> Excluded" by simp
      moreover have "categorize_record st r = st\<lparr>other := other st @ [entry_line ?subject ?sha]\<rparr>"
        using step Other by simp
      ultimately show ?thesis by blast
    qed
  qed
qed

lemma categorize_record_entries:
  assumes "all_entries P st" and "\<And>subject body sha. classify subject body \<noteq> Excluded \<Longrightarrow> P (entry_line subject sha)"
  shows "all_entries P (categorize_record st r)"
  using categorize_record_cases [of st r] assms
  by (auto simp: all_entries_def)

lemma categorize_loop_entries:
  assumes "all_entries P st" and "\<And>subject body sha. classify subject body \<noteq> Excluded \<Longrightarrow> P (entry_line subject sha)"
  shows "all_entries P (categorize_loop st rs)"
  using assms(1)
proof (induction rs arbitrary: st)
  case Nil
  then show ?case by simp
next
  case (Cons r rs)
  have "all_entries P (categorize_record st r)"
    using Cons.prems assms(2) by (rule categorize_record_entries)
  then show ?case using Cons.IH by simp
qed

lemma categorize_commits_entries:
  assumes "\<And>subject body sha. classify subject body \<noteq> Excluded \<Longrightarrow> P (entry_line subject sha)"
    and "categorize_commits raw_log k = Some l" and "e \<in> set l"
  shows "P e"
proof -
  let ?st = "categorize_loop \<lparr>breaking = [], features = [], bug_fixes = [], other = []\<rparr>
               (split raw_log ''<<--EOR-->>'')"
  have "all_entries P \<lparr>breaking = [], features = [], bug_fixes = [], other = []\<rparr>"
    by (simp add: all_entries_def)
  then have inv: "all_entries P ?st"
    using assms(1) by (rule categorize_loop_entries)
  have "l = breaking ?st \<or> l = features ?st \<or> l = bug_fixes ?st \<or> l = other ?st"
    using assms(2) by (auto simp: categorize_commits_def Let_def split: if_splits)
  then show ?thesis using inv assms(3) by (auto simp: all_entries_def)
qed

lemma release_commit_log:
  "map (dict_get (categorize_commits
          (''chore(release): v1.0.0 [skip ci]'' @ [CHR 0x00] @ [CHR 0x00] @ ''abc1234<<--EOR-->>'')))
       [''breaking'', ''features'', ''fixes'', ''other'']
   = [[], [], [], []]"
  by code_simp

lemma skip_ci_breaking_subject: "classify ''feat!: x [skip ci]'' ''BREAKING CHANGE: y'' = Excluded"
  by code_simp

text \<open>
  C4. A subject that contains \<open>chore(release):\<close> or \<open>[skip ci]\<close> is classified as
  excluded whatever else the subject and body hold, a breaking marker or a feat or fix
  type included. No excluded commit reaches a rendered section: for every log, each
  entry of each of the four lists is the entry of a subject that contains neither
  marker. The log of the test, one release commit, gives four empty lists.
\<close>

theorem excluded_commits_are_dropped:
  "(\<forall>subject body.
      contains subject ''chore(release):'' \<or> contains subject ''[skip ci]''
      \<longrightarrow> classify subject body = Excluded)
   \<and> classify ''feat!: x [skip ci]'' ''BREAKING CHANGE: y'' = Excluded
   \<and> (\<forall>raw_log k l e.
        categorize_commits raw_log k = Some l \<and> e \<in> set l \<longrightarrow>
        (\<exists>subject sha. e = entry_line subject sha
           \<and> \<not> contains subject ''chore(release):'' \<and> \<not> contains subject ''[skip ci]''))
   \<and> map (dict_get (categorize_commits
            (''chore(release): v1.0.0 [skip ci]'' @ [CHR 0x00] @ [CHR 0x00] @ ''abc1234<<--EOR-->>'')))
         [''breaking'', ''features'', ''fixes'', ''other'']
      = [[], [], [], []]"
proof (intro conjI allI impI)
  fix subject body
  assume "contains subject ''chore(release):'' \<or> contains subject ''[skip ci]''"
  then show "classify subject body = Excluded" by (rule classify_excluded)
next
  show "classify ''feat!: x [skip ci]'' ''BREAKING CHANGE: y'' = Excluded"
    by (rule skip_ci_breaking_subject)
next
  fix raw_log k l e
  assume a: "categorize_commits raw_log k = Some l \<and> e \<in> set l"
  let ?P = "\<lambda>e. \<exists>subject sha. e = entry_line subject sha
           \<and> \<not> contains subject ''chore(release):'' \<and> \<not> contains subject ''[skip ci]''"
  have "\<And>subject body sha. classify subject body \<noteq> Excluded \<Longrightarrow> ?P (entry_line subject sha)"
    using classify_not_excluded by blast
  then show "?P e"
    using a categorize_commits_entries [of ?P raw_log k l e] by blast
next
  show "map (dict_get (categorize_commits
            (''chore(release): v1.0.0 [skip ci]'' @ [CHR 0x00] @ [CHR 0x00] @ ''abc1234<<--EOR-->>'')))
         [''breaking'', ''features'', ''fixes'', ''other'']
      = [[], [], [], []]"
    by (rule release_commit_log)
qed

theorem excluded_commits_are_dropped_witness:
  "contains ''chore(release): v1.0.0 [skip ci]'' ''chore(release):''
   \<and> classify ''chore(release): v1.0.0 [skip ci]'' '''' = Excluded
   \<and> categorize_commits (''feat: add login'' @ [CHR 0x00] @ [CHR 0x00] @ ''abc1234<<--EOR-->>'')
        ''features'' = Some [entry_line ''feat: add login'' ''abc1234'']
   \<and> (\<exists>subject sha. entry_line ''feat: add login'' ''abc1234'' = entry_line subject sha
          \<and> \<not> contains subject ''chore(release):'' \<and> \<not> contains subject ''[skip ci]'')"
proof -
  have a: "contains ''chore(release): v1.0.0 [skip ci]'' ''chore(release):''"
    by code_simp
  have b: "categorize_commits (''feat: add login'' @ [CHR 0x00] @ [CHR 0x00] @ ''abc1234<<--EOR-->>'')
        ''features'' = Some [entry_line ''feat: add login'' ''abc1234'']"
    by code_simp
  have c: "entry_line ''feat: add login'' ''abc1234'' \<in> set [entry_line ''feat: add login'' ''abc1234'']"
    by simp
  from excluded_commits_are_dropped have
    d: "\<forall>subject body.
      contains subject ''chore(release):'' \<or> contains subject ''[skip ci]''
      \<longrightarrow> classify subject body = Excluded"
    and e: "\<forall>raw_log k l e.
        categorize_commits raw_log k = Some l \<and> e \<in> set l \<longrightarrow>
        (\<exists>subject sha. e = entry_line subject sha
           \<and> \<not> contains subject ''chore(release):'' \<and> \<not> contains subject ''[skip ci]'')"
    by blast+
  have "classify ''chore(release): v1.0.0 [skip ci]'' '''' = Excluded"
    using d a by blast
  moreover have "\<exists>subject sha. entry_line ''feat: add login'' ''abc1234'' = entry_line subject sha
          \<and> \<not> contains subject ''chore(release):'' \<and> \<not> contains subject ''[skip ci]''"
    using e b c by blast
  ultimately show ?thesis using a b by blast
qed

section \<open>Properties of rendering\<close>

















end
